theory Spec2Isabelle
  imports Main "HOL-Library.AList" "HOL-Library.Sublist"
begin

section \<open>Python string primitives\<close>

text \<open>
  Strings are ASCII character lists.  \<open>is_space\<close> is the set of ASCII characters for
  which Python's \<^verbatim>\<open>str.isspace\<close> (and the regular expression class \<^verbatim>\<open>\s\<close>)
  holds: 0x09 .. 0x0D, 0x1C .. 0x1F and the blank.
\<close>

definition is_space :: "char \<Rightarrow> bool" where
  "is_space c = (c \<in> set [CHR 0x09, CHR 0x0A, CHR 0x0B, CHR 0x0C, CHR 0x0D,
                          CHR 0x1C, CHR 0x1D, CHR 0x1E, CHR 0x1F, CHR 0x20])"

definition is_digit :: "char \<Rightarrow> bool" where
  "is_digit c = (c \<in> set ''0123456789'')"

definition is_ident_start :: "char \<Rightarrow> bool" where
  "is_ident_start c =
     (c \<in> set ''_abcdefghijklmnopqrstuvwxyzABCDEFGHIJKLMNOPQRSTUVWXYZ'')"

definition is_ident_char :: "char \<Rightarrow> bool" where
  "is_ident_char c = (is_ident_start c \<or> is_digit c)"

text \<open>\<^verbatim>\<open>s.strip()\<close>\<close>

definition strip :: "string \<Rightarrow> string" where
  "strip s = rev (dropWhile is_space (rev (dropWhile is_space s)))"

text \<open>\<^verbatim>\<open>s.isnumeric()\<close> on an ASCII string: not empty, decimal digits only.\<close>

definition isnumeric :: "string \<Rightarrow> bool" where
  "isnumeric s = (s \<noteq> [] \<and> list_all is_digit s)"

definition digit_value :: "char \<Rightarrow> nat" where
  "digit_value c = of_char c - 48"

text \<open>\<^verbatim>\<open>int(s)\<close> on a string of decimal digits.\<close>

definition int_of_digits :: "string \<Rightarrow> nat" where
  "int_of_digits s = foldl (\<lambda>a c. 10 * a + digit_value c) 0 s"

text \<open>\<^verbatim>\<open>str(n)\<close> for an integer.\<close>

fun str_of_nat :: "nat \<Rightarrow> string" where
  "str_of_nat n =
     (if n < 10 then [''0123456789'' ! n]
      else str_of_nat (n div 10) @ [''0123456789'' ! (n mod 10)])"

declare str_of_nat.simps [simp del]

definition str_of_int :: "int \<Rightarrow> string" where
  "str_of_int i = (if i < 0 then CHR ''-'' # str_of_nat (nat (- i)) else str_of_nat (nat i))"

text \<open>\<^verbatim>\<open>s[a:b]\<close> for \<open>0 \<le> a\<close>, \<open>0 \<le> b\<close>.\<close>

definition slice :: "nat \<Rightarrow> nat \<Rightarrow> string \<Rightarrow> string" where
  "slice a b s = drop a (take b s)"

section \<open>Errors, diagnostics context and interpreter state\<close>

text \<open>
  \<open>FatalError\<close> is \<^verbatim>\<open>send_error\<close> (the run is aborted), \<open>WarningAsError\<close> a warning
  escalated by the warning mode, \<open>PythonError\<close> an uncaught Python exception named by
  its class, \<open>CliError\<close> the \<^verbatim>\<open>parser.error\<close> of the command line.  \<open>OutOfFuel\<close> is
  not an outcome of the program: it says that the fuel given to the model of the
  recursive interpreter did not suffice.
\<close>

datatype error =
    FatalError string
  | WarningAsError string
  | PythonError string
  | CliError string
  | OutOfFuel

datatype token_match = OPEN | CLOSE

datatype warning_mode = PRINT | HIDE | AS_ERROR

record context_frame =
  source_name :: string
  base_offset :: nat
  description :: string

text \<open>
  The callables stored in \<^verbatim>\<open>Preprocessor.commands\<close>:
  \<^item> \<open>for_cmd ident value\<close> is the closure \<^verbatim>\<open>defined_value\<close> of \<^verbatim>\<open>blck_for\<close>;
  \<^item> \<open>cli_define value\<close> is the lambda of \<^verbatim>\<open>process_defines\<close>;
  \<^item> \<open>expanding text\<close> is modelled from the spec, the command that defines commands
    not being among the sources: a command defined to expand into \<open>text\<close>, which is
    expanded by a nested parse at each invocation.
\<close>

datatype command =
    for_cmd string string
  | cli_define string
  | expanding string

record state =
  commands :: "string \<rightharpoonup> command"
  atlabel :: "(string \<times> string) list option"
  clipboard :: "(string \<times> (context_frame \<times> string)) list option"
  labels :: "string \<Rightarrow> nat list"
  context_stack :: "context_frame list"
  warnings :: "string list"
  warning_mode :: warning_mode
  recursion_depth :: nat
  max_recursion_depth :: int
  token_begin :: string
  token_end :: string
  token_endblock :: string
  token_escape :: string
  position_end :: nat

type_synonym 'a result = "error + ('a \<times> state)"

type_synonym parser = "state \<Rightarrow> string \<Rightarrow> string result"

text \<open>
  Modelled from the spec: \<^verbatim>\<open>Preprocessor.send_warning\<close> is not among the sources.
  A warning is printed and the run continues, is dropped, or is promoted to a fatal
  error, as the warning mode says.
\<close>

definition send_warning :: "state \<Rightarrow> string \<Rightarrow> error + state" where
  "send_warning s msg =
     (case warning_mode s of
        PRINT \<Rightarrow> Inr (s\<lparr>warnings := warnings s @ [msg]\<rparr>)
      | HIDE \<Rightarrow> Inr s
      | AS_ERROR \<Rightarrow> Inl (WarningAsError msg))"

text \<open>
  Modelled from the spec: the context stack class is not among the sources.
  \<^verbatim>\<open>top.copy(pos, desc)\<close> is a snapshot of the top frame with a new offset and
  description, \<^verbatim>\<open>update\<close> pushes such a copy, \<^verbatim>\<open>pop\<close> removes the top frame; on an
  empty stack each of them is Python's IndexError.
\<close>

definition frame_copy :: "context_frame \<Rightarrow> nat \<Rightarrow> string \<Rightarrow> context_frame" where
  "frame_copy f pos desc = f\<lparr>base_offset := pos, description := desc\<rparr>"

definition context_top :: "state \<Rightarrow> error + context_frame" where
  "context_top s =
     (case context_stack s of [] \<Rightarrow> Inl (PythonError ''IndexError'') | f # fs \<Rightarrow> Inr f)"

definition context_update :: "nat \<Rightarrow> string \<Rightarrow> state \<Rightarrow> error + state" where
  "context_update pos desc s =
     (case context_stack s of
        [] \<Rightarrow> Inl (PythonError ''IndexError'')
      | f # fs \<Rightarrow> Inr (s\<lparr>context_stack := frame_copy f pos desc # f # fs\<rparr>))"

definition context_pop :: "state \<Rightarrow> error + state" where
  "context_pop s =
     (case context_stack s of
        [] \<Rightarrow> Inl (PythonError ''IndexError'')
      | f # fs \<Rightarrow> Inr (s\<lparr>context_stack := fs\<rparr>))"

section \<open>Simple blocks: void, block, verbatim, repeat\<close>

definition blck_void :: "parser \<Rightarrow> state \<Rightarrow> string \<Rightarrow> string \<Rightarrow> string result" where
  "blck_void prs s args contents =
     (case (if strip args \<noteq> [] then send_warning s ''the void block takes no arguments''
            else Inr s) of
        Inl e \<Rightarrow> Inl e
      | Inr s1 \<Rightarrow>
     (case context_update (position_end s1) ''in void block'' s1 of
        Inl e \<Rightarrow> Inl e
      | Inr s2 \<Rightarrow>
     (case prs s2 contents of
        Inl e \<Rightarrow> Inl e
      | Inr (r, s3) \<Rightarrow>
     (case context_pop s3 of
        Inl e \<Rightarrow> Inl e
      | Inr s4 \<Rightarrow> Inr ([], s4)))))"

definition blck_block :: "parser \<Rightarrow> state \<Rightarrow> string \<Rightarrow> string \<Rightarrow> string result" where
  "blck_block prs s args contents =
     (case (if strip args \<noteq> [] then send_warning s ''the block block takes no arguments''
            else Inr s) of
        Inl e \<Rightarrow> Inl e
      | Inr s1 \<Rightarrow>
     (case context_update (position_end s1) ''in block block'' s1 of
        Inl e \<Rightarrow> Inl e
      | Inr s2 \<Rightarrow>
     (case prs s2 contents of
        Inl e \<Rightarrow> Inl e
      | Inr (r, s3) \<Rightarrow>
     (case context_pop s3 of
        Inl e \<Rightarrow> Inl e
      | Inr s4 \<Rightarrow> Inr (r, s4)))))"

definition blck_verbatim :: "state \<Rightarrow> string \<Rightarrow> string \<Rightarrow> string result" where
  "blck_verbatim s args contents =
     (case (if strip args \<noteq> [] then send_warning s ''the verbatim block takes no arguments''
            else Inr s) of
        Inl e \<Rightarrow> Inl e
      | Inr s1 \<Rightarrow> Inr (contents, s1))"

definition repeat_usage :: string where
  "repeat_usage = ''invalid argument. Usage: repeat [uint > 0]''"

definition blck_repeat :: "parser \<Rightarrow> state \<Rightarrow> string \<Rightarrow> string \<Rightarrow> string result" where
  "blck_repeat prs s args contents =
     (let a = strip args in
      if \<not> isnumeric a then Inl (FatalError repeat_usage)
      else let nb = int_of_digits a in
      if nb \<le> 0 then Inl (FatalError repeat_usage)
      else
     (case context_update (position_end s) ''in block repeat'' s of
        Inl e \<Rightarrow> Inl e
      | Inr s1 \<Rightarrow>
     (case prs s1 contents of
        Inl e \<Rightarrow> Inl e
      | Inr (r, s2) \<Rightarrow>
     (case context_pop s2 of
        Inl e \<Rightarrow> Inl e
      | Inr s3 \<Rightarrow> Inr (concat (replicate nb r), s3)))))"

section \<open>The atlabel block and its finalization\<close>

definition atlabel_duplicate :: "string \<Rightarrow> string" where
  "atlabel_duplicate lbl =
     ''Multiple atlabel blocks with same label '' @ [CHR 0x22] @ lbl @ [CHR 0x22]"

text \<open>
  The assignment \<^verbatim>\<open>p.command_vars["atlabel"][lbl] = p.parse(contents)\<close> evaluates the
  nested parse first and stores into the dictionary found after it.
\<close>

definition blck_atlabel :: "parser \<Rightarrow> state \<Rightarrow> string \<Rightarrow> string \<Rightarrow> string result" where
  "blck_atlabel prs s args contents =
     (let lbl = strip args in
      if lbl = [] then Inl (FatalError ''empty label name'')
      else
     (case (case atlabel s of
              Some d \<Rightarrow>
                if lbl \<in> fst ` set d then Inl (FatalError (atlabel_duplicate lbl)) else Inr s
            | None \<Rightarrow> Inr (s\<lparr>atlabel := Some []\<rparr>)) of
        Inl e \<Rightarrow> Inl e
      | Inr s1 \<Rightarrow>
     (case context_update (position_end s1) ''in block atlabel'' s1 of
        Inl e \<Rightarrow> Inl e
      | Inr s2 \<Rightarrow>
     (case prs s2 contents of
        Inl e \<Rightarrow> Inl e
      | Inr (r, s3) \<Rightarrow>
     (case atlabel s3 of
        None \<Rightarrow> Inl (PythonError ''KeyError'')
      | Some d \<Rightarrow>
     (case context_pop (s3\<lparr>atlabel := Some (AList.update lbl r d)\<rparr>) of
        Inl e \<Rightarrow> Inl e
      | Inr s4 \<Rightarrow> Inr ([], s4)))))))"







section \<open>Helpers that are not among the sources\<close>

text \<open>
  \<^verbatim>\<open>Preprocessor.split_args\<close>, the \<^verbatim>\<open>argparse\<close> parser of the cut block and
  \<^verbatim>\<open>condition_eval\<close> are parameters of the model: \<open>split_args\<close> may fail,
  \<open>cut_parse_args\<close> gives the flag \<^verbatim>\<open>pre_render\<close> and the clipboard name or \<open>None\<close>
  for \<^verbatim>\<open>argparse.ArgumentError\<close>, \<open>condition_eval\<close> reads the state and may fail.
\<close>

record externals =
  split_args :: "string \<Rightarrow> error + string list"
  cut_parse_args :: "string list \<Rightarrow> (bool \<times> string) option"
  condition_eval :: "state \<Rightarrow> string \<Rightarrow> error + bool"

section \<open>The for block\<close>

definition newline :: string where
  "newline = [CHR 0x0A]"

definition for_usage :: string where
  "for_usage =
     ''Invalid syntax.'' @ newline @
     ''usage: for <ident> in range(stop)'' @ newline @
     ''                      range(start, stop)'' @ newline @
     ''                      range(start, stop, step)'' @ newline @
     ''       for <ident> in space separated list '' @ [CHR 0x22] @
     '' argument with spaces'' @ [CHR 0x22]"

definition range_usage :: string where
  "range_usage =
     ''Invalid range syntax in for.'' @ newline @
     ''usage: range(stop) or range(start, stop) or range(start, stop, step)'' @ newline @
     ''  start, stop and step, should be integers (contain only 0-9 or _, with an optional leading -)''"

text \<open>
  Modelled from the spec: \<^verbatim>\<open>REGEX_IDENTIFIER\<close> is not among the sources.  A bare
  identifier is a letter or underscore followed by letters, digits and underscores.
  The function is \<^verbatim>\<open>re.match(r"^\s*(IDENT)\s+in\s+", args)\<close>: it gives the identifier
  and the text after the match.
\<close>

definition match_for_header :: "string \<Rightarrow> (string \<times> string) option" where
  "match_for_header args =
     (let s1 = dropWhile is_space args in
      if s1 = [] \<or> \<not> is_ident_start (hd s1) then None
      else
        let ident = takeWhile is_ident_char s1;
            s2 = dropWhile is_ident_char s1;
            s3 = dropWhile is_space s2 in
        if s2 = [] \<or> \<not> is_space (hd s2) \<or> \<not> prefix ''in'' s3 then None
        else
          let s4 = drop 2 s3 in
          if s4 = [] \<or> \<not> is_space (hd s4) then None
          else Some (ident, dropWhile is_space s4))"

text \<open>
  Modelled from the spec: \<^verbatim>\<open>REGEX_INTEGER\<close> and \<^verbatim>\<open>to_integer\<close> are not among the
  sources.  The arguments of a range are integers, which the message of \<^verbatim>\<open>blck_for\<close>
  describes: only 0-9 or _, with an optional leading -.  \<open>match_integer\<close> gives the
  matched text and the rest, \<open>to_integer\<close> the number, or Python's ValueError when the
  text has no digit.
\<close>

definition is_integer_char :: "char \<Rightarrow> bool" where
  "is_integer_char c = (is_digit c \<or> c = CHR ''_'')"

definition match_integer :: "string \<Rightarrow> (string \<times> string) option" where
  "match_integer s =
     (let sign = (if prefix ''-'' s then ''-'' else []);
          r = drop (length sign) s;
          body = takeWhile is_integer_char r in
      if body = [] then None else Some (sign @ body, dropWhile is_integer_char r))"

definition to_integer :: "string \<Rightarrow> error + int" where
  "to_integer t =
     (let ds = filter is_digit t in
      if ds = [] then Inl (PythonError ''ValueError'')
      else if prefix ''-'' t then Inr (- int (int_of_digits ds))
      else Inr (int (int_of_digits ds)))"

text \<open>
  The part \<^verbatim>\<open>\s*(nb)\s*(?:,\s*(nb)\s*)?\)\<close> of the range expression: groups 2 and 3.
\<close>

definition match_range_tail :: "string \<Rightarrow> (string \<times> string option) option" where
  "match_range_tail s =
     (case match_integer (dropWhile is_space s) of
        None \<Rightarrow> None
      | Some (n2, r) \<Rightarrow>
          let r1 = dropWhile is_space r in
          if prefix '','' r1 then
            (case match_integer (dropWhile is_space (drop 1 r1)) of
               None \<Rightarrow> None
             | Some (n3, r3) \<Rightarrow>
                 if prefix '')'' (dropWhile is_space r3) then Some (n2, Some n3) else None)
          else if prefix '')'' r1 then Some (n2, None)
          else None)"

text \<open>
  \<^verbatim>\<open>re.match(r"range\((?:\s*(nb)\s*,)?\s*(nb)\s*(?:,\s*(nb)\s*)?\)", args)\<close>: the three
  groups.  The optional first group is tried first, and left out when the rest does
  not match with it.
\<close>

definition match_range :: "string \<Rightarrow> (string option \<times> string \<times> string option) option" where
  "match_range s =
     (if \<not> prefix ''range('' s then None
      else
        let r0 = drop 6 s;
            without = (case match_range_tail r0 of
                         None \<Rightarrow> None
                       | Some (n2, g3) \<Rightarrow> Some (None, n2, g3)) in
        (case match_integer (dropWhile is_space r0) of
           None \<Rightarrow> without
         | Some (n1, r) \<Rightarrow>
             let r1 = dropWhile is_space r in
             if prefix '','' r1 then
               (case match_range_tail (drop 1 r1) of
                  None \<Rightarrow> without
                | Some (n2, g3) \<Rightarrow> Some (Some n1, n2, g3))
             else without))"

text \<open>Python's \<^verbatim>\<open>range(start, stop, step)\<close> as a list; a zero step is a ValueError.\<close>

definition range_length :: "int \<Rightarrow> int \<Rightarrow> int \<Rightarrow> nat" where
  "range_length start stop step =
     (if 0 < step then (if start < stop then nat ((stop - start + step - 1) div step) else 0)
      else (if stop < start then nat ((start - stop - step - 1) div (- step)) else 0))"

definition py_range :: "int \<Rightarrow> int \<Rightarrow> int \<Rightarrow> error + int list" where
  "py_range start stop step =
     (if step = 0 then Inl (PythonError ''ValueError'')
      else Inr (map (\<lambda>k. start + int k * step) [0 ..< range_length start stop step]))"

text \<open>The values of the range source of a for block, from the three groups.\<close>

definition range_values :: "string option \<times> string \<times> string option \<Rightarrow> error + int list" where
  "range_values groups =
     (case groups of (g0, g1, g2) \<Rightarrow>
     (case to_integer g1 of
        Inl e \<Rightarrow> Inl e
      | Inr stop \<Rightarrow>
     (case g0 of
        None \<Rightarrow> py_range 0 stop 1
      | Some t0 \<Rightarrow>
     (case to_integer t0 of
        Inl e \<Rightarrow> Inl e
      | Inr start \<Rightarrow>
     (case g2 of
        None \<Rightarrow> py_range start stop 1
      | Some t2 \<Rightarrow>
     (case to_integer t2 of
        Inl e \<Rightarrow> Inl e
      | Inr step \<Rightarrow> py_range start stop step))))))"

text \<open>
  The loop \<^verbatim>\<open>for value in iterator\<close>, over the list of the values as strings
  (\<^verbatim>\<open>str(value)\<close>), with the result accumulated so far.
\<close>

fun for_loop ::
  "parser \<Rightarrow> string \<Rightarrow> string \<Rightarrow> string list \<Rightarrow> string \<Rightarrow> state \<Rightarrow> string result" where
  "for_loop prs ident contents [] result pre = Inr (result, pre)"
| "for_loop prs ident contents (v # vs) result pre =
     (let pre1 = pre\<lparr>commands := (commands pre)(ident \<mapsto> for_cmd ident v)\<rparr> in
     (case context_update (position_end pre1) ''in for block'' pre1 of
        Inl e \<Rightarrow> Inl e
      | Inr pre2 \<Rightarrow>
     (case prs pre2 contents of
        Inl e \<Rightarrow> Inl e
      | Inr (r, pre3) \<Rightarrow>
     (case context_pop pre3 of
        Inl e \<Rightarrow> Inl e
      | Inr pre4 \<Rightarrow> for_loop prs ident contents vs (result @ r) pre4))))"

text \<open>The iteration source of a for block: the values as strings.\<close>

definition for_iterator :: "externals \<Rightarrow> string \<Rightarrow> error + string list" where
  "for_iterator ext args =
     (if take 5 args = ''range'' then
        (case match_range args of
           None \<Rightarrow> Inl (FatalError range_usage)
         | Some groups \<Rightarrow>
             (case range_values groups of
                Inl e \<Rightarrow> Inl e
              | Inr vs \<Rightarrow> Inr (map str_of_int vs)))
      else split_args ext args)"

definition blck_for :: "externals \<Rightarrow> parser \<Rightarrow> state \<Rightarrow> string \<Rightarrow> string \<Rightarrow> string result" where
  "blck_for ext prs pre args contents =
     (case match_for_header args of
        None \<Rightarrow> Inl (FatalError for_usage)
      | Some (ident, rest) \<Rightarrow>
     (case for_iterator ext (strip rest) of
        Inl e \<Rightarrow> Inl e
      | Inr iterator \<Rightarrow> for_loop prs ident contents iterator [] pre))"

text \<open>The command \<^verbatim>\<open>defined_value\<close> registered by the for block.\<close>

definition for_cmd_warning :: "string \<Rightarrow> string" where
  "for_cmd_warning ident =
     ''Extra arguments.'' @ newline @ ''The command '' @ ident @
     '' defined in for loop takes no arguments''"

definition defined_value :: "string \<Rightarrow> string \<Rightarrow> state \<Rightarrow> string \<Rightarrow> string result" where
  "defined_value ident v pr args =
     (case (if strip args \<noteq> [] then send_warning pr (for_cmd_warning ident) else Inr pr) of
        Inl e \<Rightarrow> Inl e
      | Inr pr1 \<Rightarrow> Inr (v, pr1))"

section \<open>The cut block\<close>

definition cut_usage :: string where
  "cut_usage =
     ''invalid argument.'' @ newline @ ''usage: cut [--pre-render|-p] [<clipboard_name>]''"

definition blck_cut :: "externals \<Rightarrow> parser \<Rightarrow> state \<Rightarrow> string \<Rightarrow> string \<Rightarrow> string result" where
  "blck_cut ext prs pre args contents =
     (case split_args ext args of
        Inl e \<Rightarrow> Inl e
      | Inr split \<Rightarrow>
     (case cut_parse_args ext split of
        None \<Rightarrow> Inl (FatalError cut_usage)
      | Some (pre_render, clip) \<Rightarrow>
     (let pos = position_end pre in
     (case context_top pre of
        Inl e \<Rightarrow> Inl e
      | Inr top_frame \<Rightarrow>
     (let ctx = frame_copy top_frame pos ''in pasted block'' in
     (case (if pre_render then
              (case context_update pos ''in cut block'' pre of
                 Inl e \<Rightarrow> Inl e
               | Inr pre1 \<Rightarrow>
              (case prs pre1 contents of
                 Inl e \<Rightarrow> Inl e
               | Inr (r, pre2) \<Rightarrow>
              (case context_pop pre2 of
                 Inl e \<Rightarrow> Inl e
               | Inr pre3 \<Rightarrow> Inr (r, pre3))))
            else Inr (contents, pre)) of
        Inl e \<Rightarrow> Inl e
      | Inr (c, pre4) \<Rightarrow>
          Inr ([], case clipboard pre4 of
                     None \<Rightarrow> pre4\<lparr>clipboard := Some [(clip, (ctx, c))]\<rparr>
                   | Some d \<Rightarrow> pre4\<lparr>clipboard := Some (AList.update clip (ctx, c) d)\<rparr>)))))))"

section \<open>The token scanner\<close>

text \<open>
  Modelled from the spec: \<^verbatim>\<open>Preprocessor._find_tokens\<close> is not among the sources.
  The scanner gives, in order, every occurrence of the begin and of the end delimiter
  that is not preceded by the escape marker, as \<open>(begin, end, kind)\<close>; occurrences do
  not overlap.  An empty delimiter has no occurrence and an empty escape marker
  escapes nothing.
\<close>

type_synonym token = "nat \<times> nat \<times> token_match"

function find_tokens_from :: "string \<Rightarrow> string \<Rightarrow> string \<Rightarrow> nat \<Rightarrow> string \<Rightarrow> token list" where
  "find_tokens_from tb te esc i s =
     (if s = [] then []
      else if esc \<noteq> [] \<and> tb \<noteq> [] \<and> prefix (esc @ tb) s then
        find_tokens_from tb te esc (i + length (esc @ tb)) (drop (length (esc @ tb)) s)
      else if esc \<noteq> [] \<and> te \<noteq> [] \<and> prefix (esc @ te) s then
        find_tokens_from tb te esc (i + length (esc @ te)) (drop (length (esc @ te)) s)
      else if tb \<noteq> [] \<and> prefix tb s then
        (i, i + length tb, OPEN) # find_tokens_from tb te esc (i + length tb) (drop (length tb) s)
      else if te \<noteq> [] \<and> prefix te s then
        (i, i + length te, CLOSE) # find_tokens_from tb te esc (i + length te) (drop (length te) s)
      else find_tokens_from tb te esc (Suc i) (tl s))"
  by pat_completeness auto
termination
  by (relation "measure (\<lambda>(tb, te, esc, i, s). length s)") auto

declare find_tokens_from.simps [simp del]

definition find_tokens :: "state \<Rightarrow> string \<Rightarrow> token list" where
  "find_tokens pre string =
     find_tokens_from (token_begin pre) (token_end pre) (token_escape pre) 0 string"

text \<open>
  Modelled from the spec: the escape marker before a delimiter is removed from the
  text that is copied to the output.
\<close>

function strip_escapes_from :: "string \<Rightarrow> string \<Rightarrow> string \<Rightarrow> string \<Rightarrow> string" where
  "strip_escapes_from tb te esc s =
     (if s = [] then []
      else if esc \<noteq> [] \<and> tb \<noteq> [] \<and> prefix (esc @ tb) s then
        tb @ strip_escapes_from tb te esc (drop (length (esc @ tb)) s)
      else if esc \<noteq> [] \<and> te \<noteq> [] \<and> prefix (esc @ te) s then
        te @ strip_escapes_from tb te esc (drop (length (esc @ te)) s)
      else hd s # strip_escapes_from tb te esc (tl s))"
  by pat_completeness auto
termination
  by (relation "measure (\<lambda>(tb, te, esc, s). length s)") auto

declare strip_escapes_from.simps [simp del]

definition strip_escapes :: "state \<Rightarrow> string \<Rightarrow> string" where
  "strip_escapes pre string =
     strip_escapes_from (token_begin pre) (token_end pre) (token_escape pre) string"

text \<open>
  Modelled from the spec: \<^verbatim>\<open>find_matching_close_parenthese(parenthese, i)\<close> of the
  conditions module is not among the sources.  Open and close tokens nest like
  parentheses: the result is the index of the token that closes the one opened at \<open>i\<close>,
  or the number of tokens when there is none, which is what its caller tests.
\<close>

fun matching_close :: "token_match list \<Rightarrow> nat \<Rightarrow> nat \<Rightarrow> nat" where
  "matching_close [] j depth = j"
| "matching_close (OPEN # ts) j depth = matching_close ts (Suc j) (Suc depth)"
| "matching_close (CLOSE # ts) j depth =
     (if depth \<le> 1 then j else matching_close ts (Suc j) (depth - 1))"

definition find_matching_close_parenthese :: "token_match list \<Rightarrow> nat \<Rightarrow> nat" where
  "find_matching_close_parenthese parenthese i = matching_close (drop i parenthese) i 0"

section \<open>The if block\<close>

text \<open>
  The regular expressions of \<^verbatim>\<open>find_elifs_and_else\<close>, matched at the start of a
  string as \<^verbatim>\<open>re.match\<close> does.  \<open>ws_then k\<close> is \<^verbatim>\<open>\s*\<close> followed by \<open>k\<close>: the longest run
  of blanks first, then shorter ones; \<open>lit p k\<close> is the text \<open>p\<close> followed by \<open>k\<close>.
  Each gives the length of the match.
  Modelled from the spec: \<^verbatim>\<open>REGEX_IDENTIFIER_END\<close> and \<^verbatim>\<open>re_flags\<close> are not among the
  sources.  An identifier ends at the end of the string or before a character that
  cannot continue it; the flags are taken not to change these matches.
\<close>

fun ws_then :: "(string \<Rightarrow> nat option) \<Rightarrow> string \<Rightarrow> nat option" where
  "ws_then k [] = k []"
| "ws_then k (c # cs) =
     (if is_space c then
        (case ws_then k cs of Some n \<Rightarrow> Some (Suc n) | None \<Rightarrow> k (c # cs))
      else k (c # cs))"

definition lit :: "string \<Rightarrow> (string \<Rightarrow> nat option) \<Rightarrow> string \<Rightarrow> nat option" where
  "lit p k s =
     (if prefix p s then
        (case k (drop (length p) s) of Some n \<Rightarrow> Some (length p + n) | None \<Rightarrow> None)
      else None)"

definition identifier_end :: "string \<Rightarrow> bool" where
  "identifier_end s = (s = [] \<or> \<not> is_ident_char (hd s))"

text \<open>\<^verbatim>\<open>(?:END|IDENTIFIER_END)\<close> as a lookahead: nothing of it is counted.\<close>

definition end_or_identifier_end :: "string \<Rightarrow> string \<Rightarrow> nat option" where
  "end_or_identifier_end te s = (if prefix te s \<or> identifier_end s then Some 0 else None)"

definition match_if :: "state \<Rightarrow> string \<Rightarrow> bool" where
  "match_if pre s = (ws_then (lit ''if'' (end_or_identifier_end (token_end pre))) s \<noteq> None)"

definition match_endif :: "state \<Rightarrow> string \<Rightarrow> bool" where
  "match_endif pre s =
     (ws_then (lit (token_endblock pre @ ''if'')
        (ws_then (lit (token_end pre) (\<lambda>r. Some 0)))) s \<noteq> None)"

text \<open>\<^verbatim>\<open>match_else.end()\<close>\<close>

definition match_else :: "state \<Rightarrow> string \<Rightarrow> nat option" where
  "match_else pre s = ws_then (lit ''else'' (ws_then (lit (token_end pre) (\<lambda>r. Some 0)))) s"

text \<open>\<^verbatim>\<open>match_elif.end(1)\<close>\<close>

definition match_elif :: "state \<Rightarrow> string \<Rightarrow> nat option" where
  "match_elif pre s = ws_then (lit ''elif'' (end_or_identifier_end (token_end pre))) s"

definition unmatched_elif :: "state \<Rightarrow> string" where
  "unmatched_elif pre =
     ''Unmatched '' @ [CHR 0x22] @ token_begin pre @ [CHR 0x22] @ '' token in endif.'' @ newline @
     ''Add matching '' @ [CHR 0x22] @ token_end pre @ [CHR 0x22] @ '' or use '' @ [CHR 0x22] @
     token_begin pre @ ''begin'' @ token_end pre @ [CHR 0x22] @ '' to place it.''"

text \<open>
  The loop of \<^verbatim>\<open>find_elifs_and_else\<close> over \<^verbatim>\<open>enumerate(tokens)\<close>: \<open>tokens\<close> is the whole
  list, \<open>i\<close> the index of the head of the remaining list.
\<close>

fun find_elifs_loop ::
  "state \<Rightarrow> string \<Rightarrow> token list \<Rightarrow> nat \<Rightarrow> int \<Rightarrow> token list \<Rightarrow>
   error + (int \<times> int \<times> string option)" where
  "find_elifs_loop preproc string tokens i depth [] = Inr (- 1, - 1, None)"
| "find_elifs_loop preproc string tokens i depth ((begin, end, token) # rest) =
     (if token = OPEN then
        if match_if preproc (drop end string) then
          find_elifs_loop preproc string tokens (Suc i) (depth + 1) rest
        else if match_endif preproc (drop end string) then
          find_elifs_loop preproc string tokens (Suc i) (depth - 1) rest
        else if depth = 0 then
          (case match_else preproc (drop end string) of
             Some m \<Rightarrow> Inr (int begin, int (end + m), None)
           | None \<Rightarrow>
          (case match_elif preproc (drop end string) of
             Some m1 \<Rightarrow>
               (let j = find_matching_close_parenthese (map (\<lambda>x. snd (snd x)) tokens) i in
                if j = length tokens then
                  (case context_update (begin + position_end preproc) ''in elif'' preproc of
                     Inl e \<Rightarrow> Inl e
                   | Inr pre' \<Rightarrow> Inl (FatalError (unmatched_elif preproc)))
                else if length tokens < j then Inl (PythonError ''IndexError'')
                else Inr (int begin, int (fst (snd (tokens ! j))),
                          Some (slice (end + m1) (fst (tokens ! j)) string)))
           | None \<Rightarrow> find_elifs_loop preproc string tokens (Suc i) depth rest))
        else find_elifs_loop preproc string tokens (Suc i) depth rest
      else find_elifs_loop preproc string tokens (Suc i) depth rest)"

definition find_elifs_and_else ::
  "state \<Rightarrow> string \<Rightarrow> error + (int \<times> int \<times> string option)" where
  "find_elifs_and_else preproc string =
     find_elifs_loop preproc string (find_tokens preproc string) 0 0 (find_tokens preproc string)"

text \<open>
  The loop \<^verbatim>\<open>while True\<close> of \<^verbatim>\<open>blck_if\<close>, with its variables \<^verbatim>\<open>pos_0\<close>, \<^verbatim>\<open>value\<close> and
  \<^verbatim>\<open>desc\<close>.
\<close>

function if_loop ::
  "externals \<Rightarrow> parser \<Rightarrow> state \<Rightarrow> string \<Rightarrow> nat \<Rightarrow> bool \<Rightarrow> string \<Rightarrow> string result" where
  "if_loop ext prs preprocessor contents pos_0 val desc =
     (case find_elifs_and_else preprocessor (drop pos_0 contents) of
        Inl e \<Rightarrow> Inl e
      | Inr else_info \<Rightarrow>
          if val then
            (let endelse = (if fst else_info \<noteq> - 1 then pos_0 + nat (fst else_info)
                            else length contents) in
            (case context_update (pos_0 + position_end preprocessor) desc preprocessor of
               Inl e \<Rightarrow> Inl e
             | Inr p1 \<Rightarrow>
            (case prs p1 (slice pos_0 endelse contents) of
               Inl e \<Rightarrow> Inl e
             | Inr (parsed, p2) \<Rightarrow>
            (case context_pop p2 of
               Inl e \<Rightarrow> Inl e
             | Inr p3 \<Rightarrow> Inr (parsed, p3)))))
          else if fst else_info = - 1 then Inr ([], preprocessor)
          else
            (case snd (snd else_info) of
               None \<Rightarrow>
                 if_loop ext prs preprocessor contents (pos_0 + nat (fst (snd else_info)))
                   (\<not> val) ''in else''
             | Some elif_args \<Rightarrow>
            (case context_update (pos_0 + nat (fst else_info) + position_end preprocessor)
                    ''in elif evaluation'' preprocessor of
               Inl e \<Rightarrow> Inl e
             | Inr p1 \<Rightarrow>
            (case prs p1 elif_args of
               Inl e \<Rightarrow> Inl e
             | Inr (args, p2) \<Rightarrow>
            (case context_pop p2 of
               Inl e \<Rightarrow> Inl e
             | Inr p3 \<Rightarrow>
            (case condition_eval ext p3 args of
               Inl e \<Rightarrow> Inl e
             | Inr v \<Rightarrow>
                 if_loop ext prs p3 contents (pos_0 + nat (fst (snd else_info))) v
                   ''in elif''))))))"
  by pat_completeness auto

text \<open>
  Each turn of the loop moves \<open>pos_0\<close> forward: a boundary found by
  \<^verbatim>\<open>find_elifs_and_else\<close> ends after the start of the text searched, since every token is
  longer than nothing.
\<close>

lemma find_tokens_from_bounds:
  "\<forall>t \<in> set (find_tokens_from tb te esc i s). i \<le> fst t \<and> fst t < fst (snd t)"
proof (induction tb te esc i s rule: find_tokens_from.induct)
  case (1 tb te esc i s)
  show ?case
  proof (cases "s = []")
    case True
    then show ?thesis by (simp add: find_tokens_from.simps)
  next
    case ne: False
    show ?thesis
    proof (cases "esc \<noteq> [] \<and> tb \<noteq> [] \<and> prefix (esc @ tb) s")
      case c1: True
      have eq: "find_tokens_from tb te esc i s =
          find_tokens_from tb te esc (i + length (esc @ tb)) (drop (length (esc @ tb)) s)"
        using ne c1 by (subst find_tokens_from.simps) auto
      from "1.IH"(1) [OF ne c1] show ?thesis unfolding eq by auto
    next
      case c1: False
      show ?thesis
      proof (cases "esc \<noteq> [] \<and> te \<noteq> [] \<and> prefix (esc @ te) s")
        case c2: True
        have eq: "find_tokens_from tb te esc i s =
            find_tokens_from tb te esc (i + length (esc @ te)) (drop (length (esc @ te)) s)"
          using ne c1 c2 by (subst find_tokens_from.simps) auto
        from "1.IH"(2) [OF ne c1 c2] show ?thesis unfolding eq by auto
      next
        case c2: False
        show ?thesis
        proof (cases "tb \<noteq> [] \<and> prefix tb s")
          case c3: True
          have eq: "find_tokens_from tb te esc i s =
              (i, i + length tb, OPEN) #
              find_tokens_from tb te esc (i + length tb) (drop (length tb) s)"
            using ne c1 c2 c3 by (subst find_tokens_from.simps) auto
          from "1.IH"(3) [OF ne c1 c2 c3] c3 show ?thesis unfolding eq by auto
        next
          case c3: False
          show ?thesis
          proof (cases "te \<noteq> [] \<and> prefix te s")
            case c4: True
            have eq: "find_tokens_from tb te esc i s =
                (i, i + length te, CLOSE) #
                find_tokens_from tb te esc (i + length te) (drop (length te) s)"
              using ne c1 c2 c3 c4 by (subst find_tokens_from.simps) auto
            from "1.IH"(4) [OF ne c1 c2 c3 c4] c4 show ?thesis unfolding eq by auto
          next
            case c4: False
            have eq: "find_tokens_from tb te esc i s = find_tokens_from tb te esc (Suc i) (tl s)"
              using ne c1 c2 c3 c4 by (subst find_tokens_from.simps) auto
            from "1.IH"(5) [OF ne c1 c2 c3 c4] show ?thesis unfolding eq by auto
          qed
        qed
      qed
    qed
  qed
qed

lemma find_tokens_Nil: "find_tokens pre [] = []"
  by (simp add: find_tokens_def find_tokens_from.simps)

lemma find_elifs_loop_end:
  assumes "find_elifs_loop pre string tokens i depth rest = Inr (b, e, x)"
      and "b \<noteq> - 1"
      and "\<forall>t \<in> set tokens. fst t < fst (snd t)"
      and "set rest \<subseteq> set tokens"
  shows "0 < e"
  using assms
proof (induction rest arbitrary: i depth)
  case Nil
  then show ?case by simp
next
  case (Cons t rest)
  obtain tb te tk where t: "t = (tb, te, tk)" by (cases t)
  have pos: "tb < te" using Cons.prems(3,4) t by fastforce
  have nth: "\<And>j. j < length tokens \<Longrightarrow> 0 < fst (snd (tokens ! j))"
    using Cons.prems(3) by (metis gr_implies_not0 neq0_conv nth_mem)
  from Cons.prems(1) show ?case
    unfolding t
    using Cons.IH Cons.prems(2,3,4) pos nth
    by (auto simp: Let_def split: if_splits option.splits sum.splits)
qed

lemma find_elifs_and_else_end:
  assumes "find_elifs_and_else pre string = Inr (b, e, x)" and "b \<noteq> - 1"
  shows "0 < e \<and> string \<noteq> []"
proof
  have "\<forall>t \<in> set (find_tokens pre string). fst t < fst (snd t)"
    using find_tokens_from_bounds by (auto simp: find_tokens_def)
  with assms show "0 < e"
    unfolding find_elifs_and_else_def using find_elifs_loop_end by blast
  show "string \<noteq> []"
    using assms by (auto simp: find_elifs_and_else_def find_tokens_Nil)
qed

lemma find_elifs_and_else_progress:
  assumes "find_elifs_and_else pre string = Inr info" and "fst info \<noteq> - 1"
  shows "0 < fst (snd info) \<and> string \<noteq> []"
  using find_elifs_and_else_end [of pre string "fst info" "fst (snd info)" "snd (snd info)"] assms
  by simp

termination if_loop
proof (relation "measure (\<lambda>(ext, prs, pre, contents, pos_0, val, desc). length contents - pos_0)",
    goal_cases)
  case 1
  then show ?case by simp
next
  case (2 ext prs pre contents pos_0 val desc else_info)
  then show ?case
    using find_elifs_and_else_progress [of pre "drop pos_0 contents" else_info] by auto
next
  case (3 ext prs pre contents pos_0 val desc else_info elif_args p1 x y z p3 v)
  then show ?case
    using find_elifs_and_else_progress [of pre "drop pos_0 contents" else_info] by auto
qed

declare if_loop.simps [simp del]

definition blck_if :: "externals \<Rightarrow> parser \<Rightarrow> state \<Rightarrow> string \<Rightarrow> string \<Rightarrow> string result" where
  "blck_if ext prs preprocessor args contents =
     (case condition_eval ext preprocessor args of
        Inl e \<Rightarrow> Inl e
      | Inr v \<Rightarrow> if_loop ext prs preprocessor contents 0 v ''in if block'')"

section \<open>The command line option for the recursion depth\<close>

text \<open>
  The part of \<^verbatim>\<open>process_options\<close> that reads \<^verbatim>\<open>arguments.recursion_depth\<close>, which is
  \<^verbatim>\<open>None\<close> or a list of one integer.
\<close>

definition process_options_recursion_depth :: "int list option \<Rightarrow> state \<Rightarrow> error + state" where
  "process_options_recursion_depth recursion_depth_arg preproc =
     (case recursion_depth_arg of
        None \<Rightarrow> Inr preproc
      | Some l \<Rightarrow>
          (case l of
             [] \<Rightarrow> Inl (PythonError ''IndexError'')
           | rec_depth # rest \<Rightarrow>
               if rec_depth < - 1 then
                 Inl (CliError ''argument --recusion-depth/-r: number must be greater than -1'')
               else Inr (preproc\<lparr>max_recursion_depth := rec_depth\<rparr>)))"

section \<open>The recursive interpreter\<close>

text \<open>
  Modelled from the spec: \<^verbatim>\<open>Preprocessor.parse\<close> is not among the sources.  It is
  modelled from section 4.5 of the specification:
  \<^item> the text is scanned for tokens; text without a token is copied, its escape
    markers removed;
  \<^item> at the first open token, the identifier after it and the argument text up to
    the matching end delimiter are read;
  \<^item> a block identifier has its close directive found by depth over the directives
    of the same identifier, and its handler gets the raw arguments and the raw body;
  \<^item> a command identifier has its handler called with the arguments; an unknown
    identifier is fatal;
  \<^item> the result replaces the directive and is not scanned again; the interpreter
    goes on after the directive;
  \<^item> a counter of the parse calls in progress is incremented on entry and
    decremented on return; beyond the configured maximum, unless that is -1, the
    call is fatal.
  The context frame of a directive is the one its handler pushes around its nested
  parse.  The blocks are the handlers of the blocks module.
\<close>

definition directive_ident :: "string \<Rightarrow> string" where
  "directive_ident header = takeWhile is_ident_char (dropWhile is_space header)"

definition directive_args :: "string \<Rightarrow> string" where
  "directive_args header = dropWhile is_ident_char (dropWhile is_space header)"

definition block_names :: "string list" where
  "block_names =
     [''void'', ''block'', ''verbatim'', ''repeat'', ''atlabel'', ''for'', ''cut'', ''if'']"

definition call_block ::
  "externals \<Rightarrow> parser \<Rightarrow> string \<Rightarrow> state \<Rightarrow> string \<Rightarrow> string \<Rightarrow> string result" where
  "call_block ext prs ident pre args contents =
     (if ident = ''void'' then blck_void prs pre args contents
      else if ident = ''block'' then blck_block prs pre args contents
      else if ident = ''verbatim'' then blck_verbatim pre args contents
      else if ident = ''repeat'' then blck_repeat prs pre args contents
      else if ident = ''atlabel'' then blck_atlabel prs pre args contents
      else if ident = ''for'' then blck_for ext prs pre args contents
      else if ident = ''cut'' then blck_cut ext prs pre args contents
      else if ident = ''if'' then blck_if ext prs pre args contents
      else Inl (PythonError ''KeyError''))"

definition call_command :: "parser \<Rightarrow> string \<Rightarrow> command \<Rightarrow> state \<Rightarrow> string \<Rightarrow> string result" where
  "call_command prs ident cmd pre args =
     (case cmd of
        for_cmd name v \<Rightarrow> defined_value name v pre args
      | cli_define v \<Rightarrow> Inr (v, pre)
      | expanding text \<Rightarrow>
     (case context_update (position_end pre) (''in command '' @ ident) pre of
        Inl e \<Rightarrow> Inl e
      | Inr pre1 \<Rightarrow>
     (case prs pre1 text of
        Inl e \<Rightarrow> Inl e
      | Inr (r, pre2) \<Rightarrow>
     (case context_pop pre2 of
        Inl e \<Rightarrow> Inl e
      | Inr pre3 \<Rightarrow> Inr (r, pre3)))))"

text \<open>
  The open token of the close directive of a block: \<open>k\<close> is the index of the head of the
  remaining tokens, \<open>depth\<close> the number of blocks of the same identifier that are open.
\<close>

fun find_block_end ::
  "string \<Rightarrow> string \<Rightarrow> string \<Rightarrow> nat \<Rightarrow> nat \<Rightarrow> token list \<Rightarrow> nat option" where
  "find_block_end text ident endname k depth [] = None"
| "find_block_end text ident endname k depth ((b, e, kind) # rest) =
     (if kind = OPEN \<and> directive_ident (drop e text) = ident then
        find_block_end text ident endname (Suc k) (Suc depth) rest
      else if kind = OPEN \<and> directive_ident (drop e text) = endname then
        (if depth = 0 then Some k
         else find_block_end text ident endname (Suc k) (depth - 1) rest)
      else find_block_end text ident endname (Suc k) depth rest)"

definition unmatched_token :: "string \<Rightarrow> string" where
  "unmatched_token t = ''unmatched token '' @ t"

definition unmatched_block :: "string \<Rightarrow> string" where
  "unmatched_block ident = ''unmatched block '' @ ident"

definition unknown_directive :: "string \<Rightarrow> string" where
  "unknown_directive ident = ''unknown command or block '' @ ident"

definition recursion_exceeded :: string where
  "recursion_exceeded = ''maximum recursion depth exceeded''"

text \<open>
  One turn of the interpreter: either the text has no token and is finished, or the
  first directive is run, and the output up to its end, the state and the text after
  it are given.
\<close>

datatype step = Finished string state | Continue string state string

definition parse_directive :: "externals \<Rightarrow> parser \<Rightarrow> state \<Rightarrow> string \<Rightarrow> error + step" where
  "parse_directive ext prs pre text =
     (let tokens = find_tokens pre text in
      case tokens of
        [] \<Rightarrow> Inr (Finished (strip_escapes pre text) pre)
      | (b, e, kind) # ts \<Rightarrow>
          if kind = CLOSE then Inl (FatalError (unmatched_token (token_end pre)))
          else
            let parens = map (\<lambda>x. snd (snd x)) tokens;
                j = find_matching_close_parenthese parens 0 in
            if length tokens \<le> j then Inl (FatalError (unmatched_token (token_begin pre)))
            else
              let header = slice e (fst (tokens ! j)) text;
                  header_end = fst (snd (tokens ! j));
                  ident = directive_ident header;
                  args = directive_args header;
                  before = strip_escapes pre (take b text) in
              if ident \<in> set block_names then
                (case find_block_end text ident (token_endblock pre @ ident) (Suc j) 0
                        (drop (Suc j) tokens) of
                   None \<Rightarrow> Inl (FatalError (unmatched_block ident))
                 | Some k \<Rightarrow>
                     let j' = find_matching_close_parenthese parens k in
                     if length tokens \<le> j' then
                       Inl (FatalError (unmatched_token (token_begin pre)))
                     else
                       (case call_block ext prs ident (pre\<lparr>position_end := header_end\<rparr>) args
                               (slice header_end (fst (tokens ! k)) text) of
                          Inl err \<Rightarrow> Inl err
                        | Inr (r, pre') \<Rightarrow>
                            Inr (Continue (before @ r) pre'
                                   (drop (fst (snd (tokens ! j'))) text))))
              else
                (case commands pre ident of
                   None \<Rightarrow> Inl (FatalError (unknown_directive ident))
                 | Some cmd \<Rightarrow>
                     (case call_command prs ident cmd (pre\<lparr>position_end := header_end\<rparr>) args of
                        Inl err \<Rightarrow> Inl err
                      | Inr (r, pre') \<Rightarrow>
                          Inr (Continue (before @ r) pre' (drop header_end text)))))"

text \<open>
  The turns of one parse call.  Each turn consumes a token of the text, so the length
  of the text bounds their number; \<open>fuel\<close> counts them.
\<close>

primrec parse_text :: "externals \<Rightarrow> parser \<Rightarrow> nat \<Rightarrow> state \<Rightarrow> string \<Rightarrow> string result" where
  "parse_text ext prs 0 pre text = Inl OutOfFuel"
| "parse_text ext prs (Suc fuel) pre text =
     (case parse_directive ext prs pre text of
        Inl e \<Rightarrow> Inl e
      | Inr (Finished out pre') \<Rightarrow> Inr (out, pre')
      | Inr (Continue out pre' rest) \<Rightarrow>
          (case parse_text ext prs fuel pre' rest of
             Inl e \<Rightarrow> Inl e
           | Inr (r, pre'') \<Rightarrow> Inr (out @ r, pre'')))"

text \<open>
  The parse call, with \<open>n\<close> the number of nested parse calls the model may still make:
  with \<open>n = 0\<close> it gives \<open>OutOfFuel\<close>.
\<close>

primrec parse :: "externals \<Rightarrow> nat \<Rightarrow> state \<Rightarrow> string \<Rightarrow> string result" where
  "parse ext 0 pre text = Inl OutOfFuel"
| "parse ext (Suc n) pre text =
     (let depth = Suc (recursion_depth pre) in
      if max_recursion_depth pre \<noteq> - 1 \<and> max_recursion_depth pre < int depth then
        Inl (FatalError recursion_exceeded)
      else
        (case parse_text ext (parse ext n) (Suc (length text))
                (pre\<lparr>recursion_depth := depth\<rparr>) text of
           Inl e \<Rightarrow> Inl e
         | Inr (r, pre') \<Rightarrow> Inr (r, pre'\<lparr>recursion_depth := recursion_depth pre' - 1\<rparr>)))"

section \<open>An example configuration\<close>

text \<open>
  Instances of the parameters and a start state, for the concrete runs below: the
  delimiters of the documentation of the blocks, one context frame for the input, as
  \<^verbatim>\<open>preprocessor_main\<close> pushes it before the first parse.
\<close>

definition example_externals :: externals where
  "example_externals =
     \<lparr>split_args = (\<lambda>a. Inr (if strip a = [] then [] else [strip a])),
      cut_parse_args = (\<lambda>l. case l of
           [] \<Rightarrow> Some (False, [])
         | [x] \<Rightarrow> if x = ''--pre-render'' then Some (True, []) else Some (False, x)
         | _ \<Rightarrow> None),
      condition_eval = (\<lambda>pre a. Inr (strip a = ''true''))\<rparr>"

definition example_state :: state where
  "example_state =
     \<lparr>commands = Map.empty, atlabel = None, clipboard = None, labels = (\<lambda>l. []),
      context_stack = [\<lparr>source_name = ''input'', base_offset = 0, description = []\<rparr>],
      warnings = [], warning_mode = PRINT, recursion_depth = 0, max_recursion_depth = 20,
      token_begin = ''{%'', token_end = ''%}'', token_endblock = ''end'',
      token_escape = [CHR 0x5C], position_end = 0\<rparr>"


text \<open>
  A state in which the command \<^verbatim>\<open>foo\<close> is defined to expand into the directive that
  invokes it, with the maximum recursion depth \<open>d\<close>; and what the nested parse calls
  of that expansion keep of it.
\<close>

definition self_invoking :: "int \<Rightarrow> state" where
  "self_invoking d =
     example_state\<lparr>commands := [''foo'' \<mapsto> expanding ''{%foo%}''], max_recursion_depth := d\<rparr>"

definition self_invoking_inv :: "state \<Rightarrow> bool" where
  "self_invoking_inv pre =
     (token_begin pre = ''{%'' \<and> token_end pre = ''%}'' \<and> token_escape pre = [CHR 0x5C] \<and>
      commands pre ''foo'' = Some (expanding ''{%foo%}'') \<and> context_stack pre \<noteq> [])"


text \<open>
  The nesting depth of the if blocks, in the words of the specification: among the
  tokens before a position, the number of those that open an if directive minus the
  number of those that open an endif directive.  A boundary is an open token of an
  else directive (no argument text) or of an elif directive.
\<close>

definition opens_if :: "state \<Rightarrow> string \<Rightarrow> token \<Rightarrow> bool" where
  "opens_if pre string t =
     (snd (snd t) = OPEN \<and> match_if pre (drop (fst (snd t)) string))"

definition closes_if :: "state \<Rightarrow> string \<Rightarrow> token \<Rightarrow> bool" where
  "closes_if pre string t =
     (snd (snd t) = OPEN \<and> \<not> match_if pre (drop (fst (snd t)) string) \<and>
      match_endif pre (drop (fst (snd t)) string))"

definition nesting_depth :: "state \<Rightarrow> string \<Rightarrow> token list \<Rightarrow> int" where
  "nesting_depth pre string ts =
     int (length (filter (opens_if pre string) ts)) -
     int (length (filter (closes_if pre string) ts))"

definition is_boundary :: "state \<Rightarrow> string \<Rightarrow> token \<Rightarrow> string option \<Rightarrow> bool" where
  "is_boundary pre string t x =
     (snd (snd t) = OPEN \<and> \<not> opens_if pre string t \<and> \<not> closes_if pre string t \<and>
      (case x of
         None \<Rightarrow> match_else pre (drop (fst (snd t)) string) \<noteq> None
       | Some a \<Rightarrow> match_elif pre (drop (fst (snd t)) string) \<noteq> None))"

text \<open>
  A text has no stray endif up to the token \<open>k\<close> when the depth is never negative there,
  as in the body of an if block, which ends at the first endif that closes more than
  was opened.  The token \<open>k\<close> is inside an open if when an earlier token opens an if and
  the depth stays above its level before that token up to \<open>k\<close>.
\<close>

definition no_stray_endif :: "state \<Rightarrow> string \<Rightarrow> token list \<Rightarrow> nat \<Rightarrow> bool" where
  "no_stray_endif pre string toks k =
     (\<forall>m \<in> {..k}. 0 \<le> nesting_depth pre string (take m toks))"

definition inside_open_if :: "state \<Rightarrow> string \<Rightarrow> token list \<Rightarrow> nat \<Rightarrow> bool" where
  "inside_open_if pre string toks k =
     (\<exists>i \<in> {..<k}. opens_if pre string (toks ! i) \<and>
        (\<forall>m \<in> {i<..k}. nesting_depth pre string (take i toks) <
                         nesting_depth pre string (take m toks)))"

text \<open>A nested parser that returns its text as it is, for the concrete runs of the if block.\<close>

definition echo_parser :: parser where
  "echo_parser pre contents = Inr (contents, pre)"

section \<open>Properties\<close>

subsection \<open>The for block over an empty source\<close>

lemma match_for_header_example:
  "match_for_header ''x in range(0)'' = Some (''x'', ''range(0)'')"
  by (simp add: match_for_header_def is_space_def is_ident_start_def is_ident_char_def
      is_digit_def)

lemma for_iterator_range_0: "for_iterator ext (strip ''range(0)'') = Inr []"
  by (simp add: for_iterator_def strip_def is_space_def match_range_def match_range_tail_def
      match_integer_def is_integer_char_def is_digit_def range_values_def to_integer_def
      int_of_digits_def digit_value_def py_range_def range_length_def)

text \<open>
  C10.  A for block whose iteration source yields no values returns the empty string
  and the state it was given, whatever the body and whatever the nested parser would
  do: the body is not parsed and the command registry is the one before the block, so
  the loop identifier is not registered by it.  The source \<^verbatim>\<open>range(0)\<close> yields no
  values, and so does an empty argument list when \<^verbatim>\<open>split_args\<close> gives no item for it.
\<close>

theorem blck_for_empty_source:
  "(match_for_header args = Some (ident, rest) \<and> for_iterator ext (strip rest) = Inr []
      \<longrightarrow> blck_for ext prs pre args contents = Inr ([], pre)) \<and>
   for_iterator ext (strip ''range(0)'') = Inr [] \<and>
   (split_args ext [] = Inr [] \<longrightarrow> for_iterator ext (strip []) = Inr [])"
  by (simp add: blck_for_def for_iterator_range_0)
     (simp add: for_iterator_def strip_def)

theorem blck_for_empty_source_witness:
  "match_for_header ''x in range(0)'' = Some (''x'', ''range(0)'') \<and>
   for_iterator example_externals (strip ''range(0)'') = Inr [] \<and>
   blck_for example_externals (\<lambda>pre text. Inl OutOfFuel) example_state ''x in range(0)''
     ''{%x%},'' = Inr ([], example_state) \<and>
   split_args example_externals [] = Inr [] \<and>
   for_iterator example_externals (strip []) = Inr []"
  using blck_for_empty_source [of "''x in range(0)''" "''x''" "''range(0)''" example_externals
      "\<lambda>pre text. Inl OutOfFuel" example_state "''{%x%},''"]
    match_for_header_example
  by (simp add: example_externals_def strip_def)

subsection \<open>Finalization of the atlabel blocks\<close>








subsection \<open>The cut block\<close>

lemma blck_cut_stores:
  assumes "blck_cut ext prs pre args contents = Inr (r, pre')"
      and "split_args ext args = Inr sp" and "cut_parse_args ext sp = Some (pr, clip)"
  shows "r = [] \<and> (\<exists>d entry. clipboard pre' = Some d \<and> map_of d clip = Some entry)"
  using assms
  by (auto simp: blck_cut_def Let_def update_conv' split: sum.splits option.splits if_splits)

lemma blck_cut_raw:
  assumes "split_args ext args = Inr sp" and "cut_parse_args ext sp = Some (False, clip)"
      and "context_stack pre = top_frame # fs"
  shows "blck_cut ext prs pre args contents =
           Inr ([], pre\<lparr>clipboard := Some (AList.update clip
                  (frame_copy top_frame (position_end pre) ''in pasted block'', contents)
                  (case clipboard pre of None \<Rightarrow> [] | Some d \<Rightarrow> d))\<rparr>)"
  using assms by (simp add: blck_cut_def context_top_def split: option.splits)

lemma blck_cut_pre_render:
  assumes "split_args ext args = Inr sp" and "cut_parse_args ext sp = Some (True, clip)"
      and "context_stack pre = top_frame # fs"
      and "context_update (position_end pre) ''in cut block'' pre = Inr pre1"
      and "prs pre1 contents = Inr (r, pre2)"
      and "context_pop pre2 = Inr pre3"
  shows "blck_cut ext prs pre args contents =
           Inr ([], pre3\<lparr>clipboard := Some (AList.update clip
                  (frame_copy top_frame (position_end pre) ''in pasted block'', r)
                  (case clipboard pre3 of None \<Rightarrow> [] | Some d \<Rightarrow> d))\<rparr>)"
  using assms by (simp add: blck_cut_def context_top_def split: option.splits)

text \<open>
  C9.  Let a first cut block have stored under the clipboard name \<open>clip\<close>, and let a
  second cut block name the same clipboard.  The first returned the empty text and
  the name is in the clipboard.  The second, cutting raw or pre-rendering (its nested
  parse returning \<open>c2\<close>), returns the empty text without an error; afterwards the
  clipboard maps the name to the context and the content of the second cut, and the
  warnings are those of the state its content was made in: the overwriting adds
  none.
\<close>

theorem blck_cut_last_write_wins:
  assumes "blck_cut ext prs pre args1 contents1 = Inr (r1, pre1)"
      and "split_args ext args1 = Inr sp1" and "cut_parse_args ext sp1 = Some (pr1, clip)"
      and "split_args ext args2 = Inr sp2" and "cut_parse_args ext sp2 = Some (pr2, clip)"
      and "context_stack pre1 = top_frame # fs"
      and "if pr2 then
             (\<exists>p1 p2. context_update (position_end pre1) ''in cut block'' pre1 = Inr p1 \<and>
                prs p1 contents2 = Inr (c2, p2) \<and> context_pop p2 = Inr p3)
           else c2 = contents2 \<and> p3 = pre1"
  shows "r1 = [] \<and>
         (\<exists>d old. clipboard pre1 = Some d \<and> map_of d clip = Some old) \<and>
         (\<exists>pre2 d2. blck_cut ext prs pre1 args2 contents2 = Inr ([], pre2) \<and>
            clipboard pre2 = Some d2 \<and>
            map_of d2 clip =
              Some (frame_copy top_frame (position_end pre1) ''in pasted block'', c2) \<and>
            warnings pre2 = warnings p3)"
proof (intro conjI)
  show "r1 = []" and "\<exists>d old. clipboard pre1 = Some d \<and> map_of d clip = Some old"
    using blck_cut_stores [OF assms(1,2,3)] by auto
  show "\<exists>pre2 d2. blck_cut ext prs pre1 args2 contents2 = Inr ([], pre2) \<and>
            clipboard pre2 = Some d2 \<and>
            map_of d2 clip =
              Some (frame_copy top_frame (position_end pre1) ''in pasted block'', c2) \<and>
            warnings pre2 = warnings p3"
  proof (cases pr2)
    case True
    with assms(7) obtain p1 p2 where
      "context_update (position_end pre1) ''in cut block'' pre1 = Inr p1"
      "prs p1 contents2 = Inr (c2, p2)" "context_pop p2 = Inr p3"
      by auto
    moreover have "cut_parse_args ext sp2 = Some (True, clip)"
      using assms(5) True by simp
    ultimately show ?thesis
      using blck_cut_pre_render [OF assms(4) _ assms(6)]
      by (simp add: update_conv')
  next
    case False
    with assms(7) have "c2 = contents2" "p3 = pre1" by auto
    moreover have "cut_parse_args ext sp2 = Some (False, clip)"
      using assms(5) False by simp
    ultimately show ?thesis
      using blck_cut_raw [OF assms(4) _ assms(6)]
      by (simp add: update_conv')
  qed
qed

theorem blck_cut_last_write_wins_witness:
  "\<exists>pre1 pre2 d2.
     blck_cut example_externals (\<lambda>pre text. Inl OutOfFuel) example_state ''a'' ''one'' =
       Inr ([], pre1) \<and>
     blck_cut example_externals (\<lambda>pre text. Inl OutOfFuel) pre1 ''a'' ''two'' = Inr ([], pre2) \<and>
     clipboard pre2 = Some d2 \<and>
     map_of d2 ''a'' =
       Some (\<lparr>source_name = ''input'', base_offset = 0, description = ''in pasted block''\<rparr>,
             ''two'') \<and>
     warnings pre2 = []"
proof -
  let ?prs = "\<lambda>pre text. Inl OutOfFuel :: string result"
  let ?top = "\<lparr>source_name = ''input'', base_offset = 0, description = []\<rparr>"
  have sp: "split_args example_externals ''a'' = Inr [''a'']"
    by (simp add: example_externals_def strip_def is_space_def)
  have pa: "cut_parse_args example_externals [''a''] = Some (False, ''a'')"
    by (simp add: example_externals_def)
  have ctx: "context_stack example_state = ?top # []"
    by (simp add: example_state_def)
  let ?pre1 = "example_state\<lparr>clipboard := Some (AList.update ''a''
                  (frame_copy ?top (position_end example_state) ''in pasted block'', ''one'')
                  (case clipboard example_state of None \<Rightarrow> [] | Some d \<Rightarrow> d))\<rparr>"
  have first: "blck_cut example_externals ?prs example_state ''a'' ''one'' = Inr ([], ?pre1)"
    by (rule blck_cut_raw [OF sp pa ctx])
  have ctx1: "context_stack ?pre1 = ?top # []"
    by (simp add: example_state_def)
  have "if False then
          (\<exists>p1 p2. context_update (position_end ?pre1) ''in cut block'' ?pre1 = Inr p1 \<and>
             ?prs p1 ''two'' = Inr (''two'', p2) \<and> context_pop p2 = Inr ?pre1)
        else ''two'' = ''two'' \<and> ?pre1 = ?pre1"
    by simp
  from blck_cut_last_write_wins [OF first sp pa sp pa ctx1 this]
  obtain pre2 d2 where
    "blck_cut example_externals ?prs ?pre1 ''a'' ''two'' = Inr ([], pre2)"
    "clipboard pre2 = Some d2"
    "map_of d2 ''a'' = Some (frame_copy ?top (position_end ?pre1) ''in pasted block'', ''two'')"
    "warnings pre2 = warnings ?pre1"
    by blast
  with first show ?thesis
    by (intro exI [of _ ?pre1] exI [of _ pre2] exI [of _ d2])
       (simp add: frame_copy_def example_state_def)
qed

subsection \<open>Text without directives\<close>

lemma no_delimiter_no_token:
  assumes "\<not> sublist tb s" and "\<not> sublist te s"
  shows "find_tokens_from tb te esc i s = [] \<and> strip_escapes_from tb te esc s = s"
  using assms
proof (induction s arbitrary: i)
  case Nil
  then show ?case by (simp add: find_tokens_from.simps strip_escapes_from.simps)
next
  case (Cons c cs)
  have nb: "\<not> prefix tb (c # cs)" and ne: "\<not> prefix te (c # cs)"
    using Cons.prems by auto
  have neb: "\<not> prefix (esc @ tb) (c # cs)"
    using Cons.prems(1) by (auto simp: prefix_def sublist_def)
  have nee: "\<not> prefix (esc @ te) (c # cs)"
    using Cons.prems(2) by (auto simp: prefix_def sublist_def)
  have tl: "\<not> sublist tb cs" "\<not> sublist te cs"
    using Cons.prems by (auto simp: sublist_Cons_right)
  have "find_tokens_from tb te esc i (c # cs) = find_tokens_from tb te esc (Suc i) cs"
    using nb ne neb nee by (subst find_tokens_from.simps) simp
  moreover have "strip_escapes_from tb te esc (c # cs) = c # strip_escapes_from tb te esc cs"
    using neb nee by (subst strip_escapes_from.simps) simp
  ultimately show ?case using Cons.IH [OF tl] by simp
qed

lemma parse_no_token:
  assumes "max_recursion_depth pre = - 1 \<or> int (recursion_depth pre) < max_recursion_depth pre"
      and "find_tokens pre text = []"
  shows "parse ext (Suc n) pre text = Inr (strip_escapes pre text, pre)"
proof -
  let ?pre1 = "pre\<lparr>recursion_depth := Suc (recursion_depth pre)\<rparr>"
  have "find_tokens ?pre1 text = []"
    using assms(2) by (simp add: find_tokens_def)
  then have "parse_directive ext (parse ext n) ?pre1 text =
      Inr (Finished (strip_escapes pre text) ?pre1)"
    by (simp add: parse_directive_def strip_escapes_def)
  then show ?thesis using assms(1) by auto
qed

text \<open>
  C4.  Let the recursion guard not be exceeded by the call.  Then the parse of the
  empty text returns the empty text, the parse of a text in which neither delimiter
  occurs returns the text itself, and the parse of a text without a token (its
  delimiters all escaped) returns the text with the escape markers removed.  The state
  is the one before the call.
\<close>

theorem parse_without_delimiters:
  assumes "max_recursion_depth pre = - 1 \<or> int (recursion_depth pre) < max_recursion_depth pre"
  shows "parse ext (Suc n) pre [] = Inr ([], pre) \<and>
         (\<not> sublist (token_begin pre) text \<and> \<not> sublist (token_end pre) text \<longrightarrow>
            parse ext (Suc n) pre text = Inr (text, pre)) \<and>
         (find_tokens pre text = [] \<longrightarrow>
            parse ext (Suc n) pre text = Inr (strip_escapes pre text, pre))"
proof (intro conjI impI)
  show "parse ext (Suc n) pre [] = Inr ([], pre)"
    using parse_no_token [OF assms, of "[]" ext n]
    by (simp add: find_tokens_Nil strip_escapes_def strip_escapes_from.simps)
next
  assume "\<not> sublist (token_begin pre) text \<and> \<not> sublist (token_end pre) text"
  then have "find_tokens pre text = []" "strip_escapes pre text = text"
    using no_delimiter_no_token [of "token_begin pre" "text" "token_end pre" "token_escape pre" 0]
    by (simp_all add: find_tokens_def strip_escapes_def)
  then show "parse ext (Suc n) pre text = Inr (text, pre)"
    using parse_no_token [OF assms, of "text" ext n] by simp
next
  assume "find_tokens pre text = []"
  then show "parse ext (Suc n) pre text = Inr (strip_escapes pre text, pre)"
    by (rule parse_no_token [OF assms])
qed

lemma no_delimiter_example: "\<not> sublist ''{%'' ''ab''" "\<not> sublist ''%}'' ''ab''"
  by (simp_all add: sublist_Cons_right)

lemma escaped_example:
  "find_tokens example_state (''ab'' @ [CHR 0x5C] @ ''{%c'') = []"
  "strip_escapes example_state (''ab'' @ [CHR 0x5C] @ ''{%c'') = ''ab{%c''"
  by (simp_all add: find_tokens_def strip_escapes_def example_state_def find_tokens_from.simps
      strip_escapes_from.simps)

theorem parse_without_delimiters_witness:
  "(max_recursion_depth example_state = - 1 \<or>
      int (recursion_depth example_state) < max_recursion_depth example_state) \<and>
   parse example_externals (Suc 0) example_state [] = Inr ([], example_state) \<and>
   \<not> sublist (token_begin example_state) ''ab'' \<and>
   \<not> sublist (token_end example_state) ''ab'' \<and>
   parse example_externals (Suc 0) example_state ''ab'' = Inr (''ab'', example_state) \<and>
   find_tokens example_state (''ab'' @ [CHR 0x5C] @ ''{%c'') = [] \<and>
   parse example_externals (Suc 0) example_state (''ab'' @ [CHR 0x5C] @ ''{%c'') =
     Inr (''ab{%c'', example_state)"
proof -
  have guard: "max_recursion_depth example_state = - 1 \<or>
      int (recursion_depth example_state) < max_recursion_depth example_state"
    by (simp add: example_state_def)
  have nd: "\<not> sublist (token_begin example_state) ''ab''"
    "\<not> sublist (token_end example_state) ''ab''"
    using no_delimiter_example by (simp_all add: example_state_def)
  from parse_without_delimiters [OF guard, of example_externals 0 "''ab''"]
    parse_without_delimiters [OF guard, of example_externals 0 "''ab'' @ [CHR 0x5C] @ ''{%c''"]
    guard nd escaped_example
  show ?thesis by simp
qed

subsection \<open>The recursion guard\<close>

lemma tokens_foo:
  "find_tokens_from ''{%'' ''%}'' [CHR 0x5C] 0 ''{%foo%}'' = [(0, 2, OPEN), (5, 7, CLOSE)]"
  by (simp add: find_tokens_from.simps)

lemma strip_escapes_Nil: "strip_escapes_from tb te esc [] = []"
  by (simp add: strip_escapes_from.simps)

lemma ident_foo: "directive_ident ''foo'' = ''foo''" "directive_args ''foo'' = []"
  by (simp_all add: directive_ident_def directive_args_def is_space_def is_ident_char_def
      is_ident_start_def is_digit_def)

lemma parse_directive_foo:
  assumes "token_begin pre = ''{%''" and "token_end pre = ''%}''"
      and "token_escape pre = [CHR 0x5C]"
      and "commands pre ''foo'' = Some (expanding ''{%foo%}'')"
      and "context_stack pre = f # fs"
  shows "parse_directive ext prs pre ''{%foo%}'' =
     (case prs (pre\<lparr>position_end := 7,
                     context_stack := frame_copy f 7 ''in command foo'' # f # fs\<rparr>) ''{%foo%}'' of
        Inl e \<Rightarrow> Inl e
      | Inr (r, pre2) \<Rightarrow>
          (case context_pop pre2 of
             Inl e \<Rightarrow> Inl e
           | Inr pre3 \<Rightarrow> Inr (Continue r pre3 [])))"
  using assms
  by (simp add: parse_directive_def find_tokens_def tokens_foo find_matching_close_parenthese_def
      slice_def ident_foo block_names_def call_command_def context_update_def strip_escapes_def
      strip_escapes_Nil split: sum.splits prod.splits)

lemma parse_self_invoking_step:
  assumes "self_invoking_inv pre"
      and "max_recursion_depth pre = - 1 \<or> int (recursion_depth pre) < max_recursion_depth pre"
  shows "\<exists>pre1. self_invoking_inv pre1 \<and> max_recursion_depth pre1 = max_recursion_depth pre \<and>
           recursion_depth pre1 = Suc (recursion_depth pre) \<and>
           (\<forall>e. parse ext n pre1 ''{%foo%}'' = Inl e \<longrightarrow>
                parse ext (Suc n) pre ''{%foo%}'' = Inl e)"
proof -
  obtain f fs where ctx: "context_stack pre = f # fs"
    using assms(1) by (auto simp: self_invoking_inv_def neq_Nil_conv)
  let ?pre0 = "pre\<lparr>recursion_depth := Suc (recursion_depth pre)\<rparr>"
  let ?pre1 = "?pre0\<lparr>position_end := 7,
                     context_stack := frame_copy f 7 ''in command foo'' # f # fs\<rparr>"
  have step: "parse_directive ext (parse ext n) ?pre0 ''{%foo%}'' =
     (case parse ext n ?pre1 ''{%foo%}'' of
        Inl e \<Rightarrow> Inl e
      | Inr (r, pre2) \<Rightarrow>
          (case context_pop pre2 of
             Inl e \<Rightarrow> Inl e
           | Inr pre3 \<Rightarrow> Inr (Continue r pre3 [])))"
    using assms(1) ctx by (intro parse_directive_foo) (simp_all add: self_invoking_inv_def)
  have "\<forall>e. parse ext n ?pre1 ''{%foo%}'' = Inl e \<longrightarrow>
                parse ext (Suc n) pre ''{%foo%}'' = Inl e"
    using assms(2) by (auto simp: step)
  moreover have "self_invoking_inv ?pre1"
    using assms(1) by (simp add: self_invoking_inv_def)
  ultimately show ?thesis
    by (intro exI [of _ ?pre1]) simp
qed

lemma parse_self_invoking:
  assumes "self_invoking_inv pre" and "max_recursion_depth pre = int d"
      and "recursion_depth pre \<le> d"
  shows "parse ext n pre ''{%foo%}'' =
           Inl (if n \<le> d - recursion_depth pre then OutOfFuel else FatalError recursion_exceeded)"
  using assms
proof (induction n arbitrary: pre)
  case 0
  then show ?case by simp
next
  case (Suc n)
  show ?case
  proof (cases "recursion_depth pre = d")
    case True
    then show ?thesis using Suc.prems by simp
  next
    case False
    then have lt: "recursion_depth pre < d" using Suc.prems by simp
    then have "max_recursion_depth pre = - 1 \<or> int (recursion_depth pre) < max_recursion_depth pre"
      using Suc.prems by simp
    from parse_self_invoking_step [OF Suc.prems(1) this, of ext n]
    obtain pre1 where p1: "self_invoking_inv pre1" "max_recursion_depth pre1 = int d"
      "recursion_depth pre1 = Suc (recursion_depth pre)"
      "\<forall>e. parse ext n pre1 ''{%foo%}'' = Inl e \<longrightarrow> parse ext (Suc n) pre ''{%foo%}'' = Inl e"
      using Suc.prems(2) by auto
    have "parse ext n pre1 ''{%foo%}'' =
           Inl (if n \<le> d - recursion_depth pre1 then OutOfFuel else FatalError recursion_exceeded)"
      using p1 lt by (intro Suc.IH) simp_all
    with p1(3,4) lt show ?thesis by auto
  qed
qed

lemma parse_self_invoking_unlimited:
  assumes "self_invoking_inv pre" and "max_recursion_depth pre = - 1"
  shows "parse ext n pre ''{%foo%}'' = Inl OutOfFuel"
  using assms
proof (induction n arbitrary: pre)
  case 0
  then show ?case by simp
next
  case (Suc n)
  from parse_self_invoking_step [OF Suc.prems(1), of ext n] Suc.prems(2)
  obtain pre1 where p1: "self_invoking_inv pre1" "max_recursion_depth pre1 = - 1"
      "\<forall>e. parse ext n pre1 ''{%foo%}'' = Inl e \<longrightarrow> parse ext (Suc n) pre ''{%foo%}'' = Inl e"
    by auto
  from Suc.IH [OF p1(1,2)] p1(3) show ?case by simp
qed

lemma self_invoking_inv_example: "self_invoking_inv (self_invoking d)"
  by (simp add: self_invoking_inv_def self_invoking_def example_state_def)

text \<open>
  C1.  For every maximum depth \<open>d \<ge> 0\<close>, the expansion of the command that expands
  into the directive invoking itself ends with the fatal error of the recursion guard:
  with \<open>d\<close> nested calls or fewer allowed to the model, the model is still running, and
  with more it has stopped with that error, so the error is raised by the call whose
  nesting count is \<open>d + 1\<close>.  With the maximum -1 the guard never fires: the
  expansion is still running however many nested calls the model makes.  In general, a parse call
  entered when the count has reached a maximum other than -1 is that fatal error.
  The command line rejects a value below -1 and stores any other.
\<close>

theorem recursion_guard:
  "(0 \<le> d \<longrightarrow>
      (\<forall>n. parse ext n (self_invoking d) ''{%foo%}'' =
          Inl (if n \<le> nat d then OutOfFuel else FatalError recursion_exceeded))) \<and>
   (\<forall>n. parse ext n (self_invoking (- 1)) ''{%foo%}'' = Inl OutOfFuel) \<and>
   (max_recursion_depth pre \<noteq> - 1 \<and> max_recursion_depth pre \<le> int (recursion_depth pre) \<longrightarrow>
      parse ext (Suc n) pre txt = Inl (FatalError recursion_exceeded)) \<and>
   (d < - 1 \<longrightarrow> (\<exists>msg. process_options_recursion_depth (Some [d]) pre = Inl (CliError msg))) \<and>
   (- 1 \<le> d \<longrightarrow>
      process_options_recursion_depth (Some [d]) pre = Inr (pre\<lparr>max_recursion_depth := d\<rparr>))"
proof (intro conjI impI allI)
  fix n assume "0 \<le> d"
  then show "parse ext n (self_invoking d) ''{%foo%}'' =
          Inl (if n \<le> nat d then OutOfFuel else FatalError recursion_exceeded)"
    using parse_self_invoking [OF self_invoking_inv_example, of d "nat d" ext n]
    by (simp add: self_invoking_def example_state_def)
next
  fix n show "parse ext n (self_invoking (- 1)) ''{%foo%}'' = Inl OutOfFuel"
    by (rule parse_self_invoking_unlimited [OF self_invoking_inv_example])
       (simp add: self_invoking_def)
next
  assume "max_recursion_depth pre \<noteq> - 1 \<and> max_recursion_depth pre \<le> int (recursion_depth pre)"
  then show "parse ext (Suc n) pre txt = Inl (FatalError recursion_exceeded)"
    by auto
next
  assume "d < - 1"
  then show "\<exists>msg. process_options_recursion_depth (Some [d]) pre = Inl (CliError msg)"
    by (simp add: process_options_recursion_depth_def)
next
  assume "- 1 \<le> d"
  then show "process_options_recursion_depth (Some [d]) pre = Inr (pre\<lparr>max_recursion_depth := d\<rparr>)"
    by (simp add: process_options_recursion_depth_def)
qed


theorem recursion_guard_witness:
  "parse example_externals 4 (self_invoking 3) ''{%foo%}'' = Inl (FatalError recursion_exceeded) \<and>
   parse example_externals 3 (self_invoking 3) ''{%foo%}'' = Inl OutOfFuel \<and>
   parse example_externals 1 (self_invoking 0) ''{%foo%}'' = Inl (FatalError recursion_exceeded) \<and>
   parse example_externals 1000 (self_invoking (- 1)) ''{%foo%}'' = Inl OutOfFuel \<and>
   parse example_externals (Suc 0) (example_state\<lparr>max_recursion_depth := 0\<rparr>) ''plain'' =
     Inl (FatalError recursion_exceeded) \<and>
   (\<exists>msg. process_options_recursion_depth (Some [- 2]) example_state = Inl (CliError msg)) \<and>
   process_options_recursion_depth (Some [- 1]) example_state =
     Inr (example_state\<lparr>max_recursion_depth := - 1\<rparr>) \<and>
   process_options_recursion_depth (Some [0]) example_state =
     Inr (example_state\<lparr>max_recursion_depth := 0\<rparr>)"
proof -
  note g3 = recursion_guard [of 3 example_externals
      "example_state\<lparr>max_recursion_depth := 0\<rparr>" 0 "''plain''"]
  note g0 = recursion_guard [of 0 example_externals example_state 0 "''plain''"]
  note gm2 = recursion_guard [of "- 2" example_externals example_state 0 "''plain''"]
  note gm1 = recursion_guard [of "- 1" example_externals example_state 0 "''plain''"]
  have a3: "\<forall>n. parse example_externals n (self_invoking 3) ''{%foo%}'' =
      Inl (if n \<le> nat 3 then OutOfFuel else FatalError recursion_exceeded)"
    using g3 by (simp del: parse.simps)
  have a0: "\<forall>n. parse example_externals n (self_invoking 0) ''{%foo%}'' =
      Inl (if n \<le> nat 0 then OutOfFuel else FatalError recursion_exceeded)"
    using g0 by (simp del: parse.simps)
  have am: "\<forall>n. parse example_externals n (self_invoking (- 1)) ''{%foo%}'' = Inl OutOfFuel"
    using g3 by (simp del: parse.simps)
  have ag: "parse example_externals (Suc 0) (example_state\<lparr>max_recursion_depth := 0\<rparr>) ''plain'' =
     Inl (FatalError recursion_exceeded)"
    using g3 by (simp del: parse.simps)
  have c1: "\<exists>msg. process_options_recursion_depth (Some [- 2]) example_state = Inl (CliError msg)"
    using gm2 by (simp del: parse.simps)
  have c2: "process_options_recursion_depth (Some [- 1]) example_state =
     Inr (example_state\<lparr>max_recursion_depth := - 1\<rparr>)"
    using gm1 by (simp del: parse.simps)
  have c3: "process_options_recursion_depth (Some [0]) example_state =
     Inr (example_state\<lparr>max_recursion_depth := 0\<rparr>)"
    using g0 by (simp del: parse.simps)
  from a3 [rule_format, of 4] a3 [rule_format, of 3] a0 [rule_format, of 1]
    am [rule_format, of 1000] ag c1 c2 c3
  show ?thesis by (simp del: parse.simps)
qed


subsection \<open>Evaluating the interpreter on concrete texts\<close>

lemmas char_class_defs = is_space_def is_ident_char_def is_ident_start_def is_digit_def

lemmas interpreter_defs =
  parse_directive_def find_tokens_def find_tokens_from.simps find_matching_close_parenthese_def
  slice_def directive_ident_def directive_args_def block_names_def call_block_def
  call_command_def strip_def context_update_def context_pop_def frame_copy_def
  strip_escapes_def strip_escapes_from.simps

subsection \<open>The repeat block\<close>









subsection \<open>The for block over a range\<close>








subsection \<open>The atlabel block\<close>

lemma blck_atlabel_duplicate:
  assumes "atlabel pre = Some d" and "strip args \<in> fst ` set d" and "strip args \<noteq> []"
  shows "blck_atlabel prs pre args contents = Inl (FatalError (atlabel_duplicate (strip args)))"
  using assms by (simp add: blck_atlabel_def Let_def)

lemma blck_atlabel_stores:
  assumes "blck_atlabel prs pre args contents = Inr (r, pre')"
  shows "r = [] \<and> (\<exists>d content. atlabel pre' = Some d \<and> map_of d (strip args) = Some content)"
  using assms
  by (auto simp: blck_atlabel_def Let_def context_pop_def update_conv'
      split: if_splits sum.splits option.splits list.splits)

lemma atlabel_nested:
  "parse ext (Suc (Suc (Suc n))) example_state
      ''{%atlabel a%}X{%atlabel a%}Y{%endatlabel%}{%endatlabel%}'' =
     Inr ([], example_state\<lparr>atlabel := Some [(''a'', ''X'')], position_end := 14\<rparr>)"
  by (simp add: example_state_def interpreter_defs char_class_defs blck_atlabel_def)

lemma atlabel_sequence:
  "parse ext (Suc (Suc n)) example_state
      ''{%atlabel a%}X{%endatlabel%}{%atlabel a%}Y{%endatlabel%}'' =
     Inl (FatalError (atlabel_duplicate ''a''))"
  by (simp add: example_state_def interpreter_defs char_class_defs blck_atlabel_def)

lemma atlabel_handler_nested:
  "blck_atlabel (\<lambda>pre contents. blck_atlabel echo_parser pre ''a'' ''Y'') example_state ''a''
      ''X'' =
     Inr ([], example_state\<lparr>atlabel := Some [(''a'', [])]\<rparr>)"
  by (simp add: blck_atlabel_def echo_parser_def example_state_def strip_def is_space_def
      context_update_def context_pop_def frame_copy_def)

text \<open>
  C7.  Two atlabel blocks with the same label, one after the other, stop with the
  fatal error of the duplicate label.  When the second is inside the body of the first,
  neither is refused: the label is looked up before the body is parsed and stored
  after it, so the inner block stores its content and the outer block overwrites it.
  The same is seen on the handler alone, when the nested parser it is given runs an
  atlabel block with the same label.
\<close>

theorem atlabel_nested_duplicate:
  "parse ext (Suc (Suc n)) example_state
      ''{%atlabel a%}X{%endatlabel%}{%atlabel a%}Y{%endatlabel%}'' =
     Inl (FatalError (atlabel_duplicate ''a'')) \<and>
   parse ext (Suc (Suc (Suc n))) example_state
      ''{%atlabel a%}X{%atlabel a%}Y{%endatlabel%}{%endatlabel%}'' =
     Inr ([], example_state\<lparr>atlabel := Some [(''a'', ''X'')], position_end := 14\<rparr>) \<and>
   blck_atlabel (\<lambda>pre contents. blck_atlabel echo_parser pre ''a'' ''Y'') example_state ''a''
      ''X'' =
     Inr ([], example_state\<lparr>atlabel := Some [(''a'', [])]\<rparr>)"
  using atlabel_sequence [of ext n] atlabel_nested [of ext n] atlabel_handler_nested
  by (simp del: parse.simps)


subsection \<open>The boundaries of the if block\<close>

lemma nesting_depth_Nil: "nesting_depth pre string [] = 0"
  by (simp add: nesting_depth_def)

lemma nesting_depth_Cons:
  "nesting_depth pre string (t # ts) =
     (if opens_if pre string t then 1 else 0) - (if closes_if pre string t then 1 else 0) +
     nesting_depth pre string ts"
  by (simp add: nesting_depth_def)

lemma find_elifs_loop_depth:
  assumes "find_elifs_loop pre string tokens i depth rest = Inr (b, e, x)" and "b \<noteq> - 1"
  shows "\<exists>k < length rest. int (fst (rest ! k)) = b \<and>
           depth + nesting_depth pre string (take k rest) = 0 \<and>
           is_boundary pre string (rest ! k) x"
  using assms
proof (induction rest arbitrary: i depth)
  case Nil
  then show ?case by simp
next
  case (Cons t rest)
  obtain tb te tk where t: "t = (tb, te, tk)" by (cases t)
  let ?s = "drop te string"
  consider (opens) "tk = OPEN" "match_if pre ?s"
    | (closes) "tk = OPEN" "\<not> match_if pre ?s" "match_endif pre ?s"
    | (here) "tk = OPEN" "\<not> match_if pre ?s" "\<not> match_endif pre ?s" "depth = 0"
        "match_else pre ?s \<noteq> None \<or> match_elif pre ?s \<noteq> None"
    | (skip) "tk \<noteq> OPEN \<or> (\<not> match_if pre ?s \<and> \<not> match_endif pre ?s \<and>
        (depth \<noteq> 0 \<or> (match_else pre ?s = None \<and> match_elif pre ?s = None)))"
    by argo
  then show ?case
  proof cases
    case opens
    then have "find_elifs_loop pre string tokens (Suc i) (depth + 1) rest = Inr (b, e, x)"
      using Cons.prems(1) t by simp
    from Cons.IH [OF this Cons.prems(2)] obtain k where k: "k < length rest"
      "int (fst (rest ! k)) = b" "depth + 1 + nesting_depth pre string (take k rest) = 0"
      "is_boundary pre string (rest ! k) x" by blast
    have "opens_if pre string t" "\<not> closes_if pre string t"
      using opens t by (simp_all add: opens_if_def closes_if_def)
    then show ?thesis using k
      by (intro exI [of _ "Suc k"]) (simp add: nesting_depth_Cons)
  next
    case closes
    then have "find_elifs_loop pre string tokens (Suc i) (depth - 1) rest = Inr (b, e, x)"
      using Cons.prems(1) t by simp
    from Cons.IH [OF this Cons.prems(2)] obtain k where k: "k < length rest"
      "int (fst (rest ! k)) = b" "depth - 1 + nesting_depth pre string (take k rest) = 0"
      "is_boundary pre string (rest ! k) x" by blast
    have "\<not> opens_if pre string t" "closes_if pre string t"
      using closes t by (simp_all add: opens_if_def closes_if_def)
    then show ?thesis using k
      by (intro exI [of _ "Suc k"]) (simp add: nesting_depth_Cons)
  next
    case here
    have no: "\<not> opens_if pre string t" "\<not> closes_if pre string t"
      using here t by (simp_all add: opens_if_def closes_if_def)
    have "int tb = b \<and> is_boundary pre string t x"
      using Cons.prems(1) here no t
      by (auto simp: is_boundary_def Let_def split: option.splits if_splits sum.splits)
    then show ?thesis using here t
      by (intro exI [of _ 0]) (simp add: nesting_depth_Nil)
  next
    case skip
    then have "find_elifs_loop pre string tokens (Suc i) depth rest = Inr (b, e, x)"
      using Cons.prems(1) t by (auto split: if_splits option.splits)
    from Cons.IH [OF this Cons.prems(2)] obtain k where k: "k < length rest"
      "int (fst (rest ! k)) = b" "depth + nesting_depth pre string (take k rest) = 0"
      "is_boundary pre string (rest ! k) x" by blast
    have "\<not> opens_if pre string t" "\<not> closes_if pre string t"
      using skip t by (auto simp: opens_if_def closes_if_def)
    then show ?thesis using k
      by (intro exI [of _ "Suc k"]) (simp add: nesting_depth_Cons)
  qed
qed

lemma depth_zero_not_inside:
  assumes "nesting_depth pre string (take k toks) = 0" and "no_stray_endif pre string toks k"
  shows "\<not> inside_open_if pre string toks k"
proof
  assume "inside_open_if pre string toks k"
  then obtain i where i: "i < k"
    "\<forall>m \<in> {i<..k}. nesting_depth pre string (take i toks) < nesting_depth pre string (take m toks)"
    by (auto simp: inside_open_if_def)
  then have "nesting_depth pre string (take i toks) < nesting_depth pre string (take k toks)"
    by simp
  moreover have "0 \<le> nesting_depth pre string (take i toks)"
    using assms(2) i(1) by (simp add: no_stray_endif_def)
  ultimately show False using assms(1) by simp
qed

text \<open>
  C2.  When \<^verbatim>\<open>find_elifs_and_else\<close> returns a boundary, it starts at a token of the text
  searched before which the nesting depth is zero: as many if directives have been
  opened as endif directives have closed.  The token is an open token that opens an else
  directive when no argument text is returned and an elif directive otherwise, and is
  neither an if nor an endif.  In a text without a stray endif before it, as the body of
  an if block is, the boundary is not inside an if that is still open: an else or elif
  of an inner if is not returned.
\<close>

theorem find_elifs_and_else_depth_zero:
  assumes "find_elifs_and_else preproc string = Inr (b, e, x)" and "b \<noteq> - 1"
  shows "\<exists>k < length (find_tokens preproc string).
           int (fst (find_tokens preproc string ! k)) = b \<and>
           nesting_depth preproc string (take k (find_tokens preproc string)) = 0 \<and>
           is_boundary preproc string (find_tokens preproc string ! k) x \<and>
           (no_stray_endif preproc string (find_tokens preproc string) k \<longrightarrow>
              \<not> inside_open_if preproc string (find_tokens preproc string) k)"
  using find_elifs_loop_depth [of preproc string "find_tokens preproc string" 0 0
      "find_tokens preproc string" b e x] assms depth_zero_not_inside
  by (fastforce simp add: find_elifs_and_else_def)

lemma nested_if_tokens:
  "find_tokens example_state ''A{%if x%}{%else%}{%endif%}B{%else%}C'' =
     [(1, 3, OPEN), (7, 9, CLOSE), (9, 11, OPEN), (15, 17, CLOSE), (17, 19, OPEN),
      (24, 26, CLOSE), (27, 29, OPEN), (33, 35, CLOSE)]"
  by (simp add: find_tokens_def example_state_def find_tokens_from.simps)

lemma nested_if_example:
  "find_elifs_and_else example_state ''A{%if x%}{%else%}{%endif%}B{%else%}C'' =
     Inr (27, 35, None)"
  unfolding find_elifs_and_else_def nested_if_tokens
  by (simp add: match_if_def match_endif_def match_else_def match_elif_def lit_def
      end_or_identifier_end_def identifier_end_def char_class_defs example_state_def)

lemma nested_if_depths:
  "no_stray_endif example_state ''A{%if x%}{%else%}{%endif%}B{%else%}C''
     (find_tokens example_state ''A{%if x%}{%else%}{%endif%}B{%else%}C'') 6"
  "inside_open_if example_state ''A{%if x%}{%else%}{%endif%}B{%else%}C''
     (find_tokens example_state ''A{%if x%}{%else%}{%endif%}B{%else%}C'') 2"
  unfolding nested_if_tokens no_stray_endif_def inside_open_if_def
  by (simp_all add: atMost_Suc lessThan_Suc greaterThanAtMost_def nesting_depth_def opens_if_def closes_if_def match_if_def match_endif_def lit_def
      end_or_identifier_end_def identifier_end_def char_class_defs example_state_def
      eval_nat_numeral)

theorem find_elifs_and_else_depth_zero_witness:
  "find_elifs_and_else example_state ''A{%if x%}{%else%}{%endif%}B{%else%}C'' =
     Inr (27, 35, None) \<and>
   fst (find_tokens example_state ''A{%if x%}{%else%}{%endif%}B{%else%}C'' ! 6) = 27 \<and>
   fst (find_tokens example_state ''A{%if x%}{%else%}{%endif%}B{%else%}C'' ! 2) = 9 \<and>
   no_stray_endif example_state ''A{%if x%}{%else%}{%endif%}B{%else%}C''
     (find_tokens example_state ''A{%if x%}{%else%}{%endif%}B{%else%}C'') 6 \<and>
   nesting_depth example_state ''A{%if x%}{%else%}{%endif%}B{%else%}C''
     (take 6 (find_tokens example_state ''A{%if x%}{%else%}{%endif%}B{%else%}C'')) = 0 \<and>
   \<not> inside_open_if example_state ''A{%if x%}{%else%}{%endif%}B{%else%}C''
     (find_tokens example_state ''A{%if x%}{%else%}{%endif%}B{%else%}C'') 6 \<and>
   inside_open_if example_state ''A{%if x%}{%else%}{%endif%}B{%else%}C''
     (find_tokens example_state ''A{%if x%}{%else%}{%endif%}B{%else%}C'') 2"
proof -
  let ?s = "''A{%if x%}{%else%}{%endif%}B{%else%}C''"
  let ?toks = "find_tokens example_state ?s"
  have neq: "(27 :: int) \<noteq> - 1" by simp
  from find_elifs_and_else_depth_zero [OF nested_if_example neq]
  obtain k where k: "k < length ?toks" "int (fst (?toks ! k)) = 27"
    "nesting_depth example_state ?s (take k ?toks) = 0"
    "no_stray_endif example_state ?s ?toks k \<longrightarrow> \<not> inside_open_if example_state ?s ?toks k"
    by blast
  have "k = 6"
    using k(1,2) unfolding nested_if_tokens
    by (auto simp: eval_nat_numeral less_Suc_eq)
  with k nested_if_depths nested_if_example show ?thesis
    by (simp add: nested_if_tokens)
qed


subsection \<open>The branches of the if block\<close>

lemmas if_defs =
  blck_if_def if_loop.simps find_elifs_and_else_def match_if_def match_endif_def match_else_def
  match_elif_def lit_def end_or_identifier_end_def identifier_end_def Let_def





lemma if_nested_example:
  "\<exists>pre'. parse example_externals (Suc (Suc (Suc n))) example_state
      ''{%if true%}A{%if false%}x{%else%}y{%endif%}{%else%}C{%endif%}'' = Inr (''Ay'', pre')"
  by (simp add: example_state_def example_externals_def interpreter_defs char_class_defs if_defs)












end
